theory Spec2Isabelle
  imports Main
begin

section \<open>Values, documents and the remote store\<close>

text \<open>
  JavaScript values as far as \<^verbatim>\<open>gemini.js\<close> inspects them: the component only tests
  values for truthiness (\<^verbatim>\<open>data.count || 0\<close>, \<^verbatim>\<open>!firebaseConfig.apiKey\<close>, \<^verbatim>\<open>!!userId\<close>).
  Finite numbers are integers here; \<open>JObj\<close> stands for any object (array, map,
  timestamp ...), which is always truthy.
\<close>

datatype jsval = JUndefined | JNull | JBool bool | JNum int | JNaN | JStr string | JObj

fun truthy :: "jsval \<Rightarrow> bool" where
  "truthy JUndefined = False"
| "truthy JNull = False"
| "truthy (JBool b) = b"
| "truthy (JNum n) = (n \<noteq> 0)"
| "truthy JNaN = False"
| "truthy (JStr s) = (s \<noteq> [])"
| "truthy JObj = True"

text \<open>The operator \<^verbatim>\<open>a || b\<close>.\<close>

definition js_or :: "jsval \<Rightarrow> jsval \<Rightarrow> jsval" where
  "js_or a b = (if truthy a then a else b)"

text \<open>A document is its fields; reading a field that is absent gives \<^verbatim>\<open>undefined\<close>.\<close>

type_synonym document = "string \<rightharpoonup> jsval"

definition field :: "document \<Rightarrow> string \<Rightarrow> jsval" where
  "field d k = (case d k of None \<Rightarrow> JUndefined | Some v \<Rightarrow> v)"

text \<open>Handles returned by \<^verbatim>\<open>getFirestore(app)\<close> and \<^verbatim>\<open>getAuth(app)\<close>, and a document
  reference \<^verbatim>\<open>doc(db, path)\<close>.\<close>

datatype firestore = Firestore

datatype auth_handle = FirebaseAuth

datatype doc_ref = DocRef firestore string

text \<open>
  A write request as the client hands it to the store: \<^verbatim>\<open>setDoc(ref, data, {merge})\<close>,
  where a field of \<open>data\<close> is a plain value or the sentinel \<^verbatim>\<open>increment(n)\<close>.
\<close>

datatype field_write = Plain jsval | Increment int

record write_req =
  w_ref :: doc_ref
  w_data :: "(string \<times> field_write) list"
  w_merge :: bool

text \<open>
  The Remote Document Store is an external collaborator. Its reaction to a write
  request is modelled as the store documents it: a merge write keeps the fields it
  does not name and creates the document when it is absent; the increment transform
  adds its operand to a numeric field and sets the field to the operand when the
  field is absent or not a number. The transform is evaluated by the store on the
  stored value; integers are unbounded in this model.
\<close>

type_synonym store = "doc_ref \<rightharpoonup> document"

fun apply_field :: "jsval option \<Rightarrow> field_write \<Rightarrow> jsval" where
  "apply_field old (Plain v) = v"
| "apply_field (Some (JNum n)) (Increment k) = JNum (n + k)"
| "apply_field (Some JNaN) (Increment k) = JNaN"
| "apply_field old (Increment k) = JNum k"

fun apply_fields :: "document \<Rightarrow> (string \<times> field_write) list \<Rightarrow> document" where
  "apply_fields d [] = d"
| "apply_fields d ((k, f) # fs) = apply_fields (d(k \<mapsto> apply_field (d k) f)) fs"

definition apply_write :: "store \<Rightarrow> write_req \<Rightarrow> store" where
  "apply_write s r =
     (let base = (if w_merge r then (case s (w_ref r) of None \<Rightarrow> Map.empty | Some d \<Rightarrow> d)
                  else Map.empty)
      in s(w_ref r \<mapsto> apply_fields base (w_data r)))"

section \<open>Configuration globals\<close>

text \<open>
  The three ambient globals read at module level: \<^verbatim>\<open>__app_id\<close>, the \<^verbatim>\<open>apiKey\<close> field
  of the parsed \<^verbatim>\<open>__firebase_config\<close> (\<open>JUndefined\<close> when the field or the whole
  global is absent) and \<^verbatim>\<open>__initial_auth_token\<close>.
\<close>

record config =
  app_id_global :: "string option"
  apiKey :: jsval
  initial_auth_token_global :: "string option"

definition appId :: "config \<Rightarrow> string" where
  "appId cfg = (case app_id_global cfg of None \<Rightarrow> ''default-app-id'' | Some a \<Rightarrow> a)"

definition initialAuthToken :: "config \<Rightarrow> string option" where
  "initialAuthToken cfg = initial_auth_token_global cfg"

definition MOCK_ADMIN_EMAIL :: string where
  "MOCK_ADMIN_EMAIL = ''editor@thecurrent.edu''"

definition MOCK_ADMIN_PASSWORD :: string where
  "MOCK_ADMIN_PASSWORD = ''password123''"

section \<open>The component and its surroundings\<close>

datatype log_entry = ConsoleError string | ConsoleLog string

datatype signin_kind = CustomToken string | Anonymous

datatype signin_state = NotStarted | Pending signin_kind | Resolved | Rejected

text \<open>
  One record holds the \<^verbatim>\<open>useState\<close> cells of \<^verbatim>\<open>App\<close>, what React remembers about
  the two dependency-guarded effects, and what the component has done to the outside:
  console output, toasts, write requests issued to the store, the registered
  listeners, and the identity provider's own state.
\<close>

record world =
  db :: "firestore option"
  auth :: "auth_handle option"
  userId :: "string option"
  isAuthReady :: bool
  viewCount :: jsval
  loginEmail :: string
  loginPassword :: string
  isLoggingIn :: bool
  showLogin :: bool
  mounted :: bool
  deps2 :: "(bool \<times> doc_ref option) option"
  deps3 :: "(bool \<times> doc_ref option) option"
  console :: "log_entry list"
  toasts :: "(string \<times> bool) list"
  writes :: "write_req list"
  settled :: nat
  auth_listener :: bool
  snapshot_sub :: "doc_ref option"
  provider_user :: "string option"
  signin :: signin_state

definition init_world :: world where
  "init_world = \<lparr>db = None, auth = None, userId = None, isAuthReady = False,
     viewCount = JNum 0, loginEmail = [], loginPassword = [], isLoggingIn = False,
     showLogin = False, mounted = False, deps2 = None, deps3 = None, console = [],
     toasts = [], writes = [], settled = 0, auth_listener = False, snapshot_sub = None,
     provider_user = None, signin = NotStarted\<rparr>"

text \<open>\<^verbatim>\<open>useMemo(() => db ? doc(db, `/artifacts/${appId}/...`) : null, [db])\<close>\<close>

definition analyticsDocPath :: "config \<Rightarrow> world \<Rightarrow> doc_ref option" where
  "analyticsDocPath cfg w =
     (case db w of
        None \<Rightarrow> None
      | Some d \<Rightarrow> Some (DocRef d (''/artifacts/'' @ appId cfg @ ''/public/data/analytics/olhs_current_views'')))"

definition isLoggedIn :: "world \<Rightarrow> bool" where
  "isLoggedIn w = (case userId w of None \<Rightarrow> False | Some u \<Rightarrow> u \<noteq> [])"

definition isAdmin :: "world \<Rightarrow> bool" where
  "isAdmin w = isLoggedIn w"

definition showToast :: "string \<Rightarrow> bool \<Rightarrow> world \<Rightarrow> world" where
  "showToast message isError w =
     (if \<not> mounted w then w else w\<lparr>toasts := (message, isError) # toasts w\<rparr>)"

subsection \<open>Effect 1: initialise Firebase and authentication\<close>

text \<open>The callback handed to \<^verbatim>\<open>onAuthStateChanged\<close>.\<close>

definition authStateCallback :: "string option \<Rightarrow> world \<Rightarrow> world" where
  "authStateCallback user w =
     (case user of
        Some uid \<Rightarrow> w\<lparr>userId := Some uid, isAuthReady := True\<rparr>
      | None \<Rightarrow> w\<lparr>userId := None, isAuthReady := True\<rparr>)"

text \<open>\<^verbatim>\<open>attemptAuth\<close> up to its \<^verbatim>\<open>await\<close>: which sign-in is started.\<close>

definition attemptAuth :: "config \<Rightarrow> world \<Rightarrow> world" where
  "attemptAuth cfg w =
     (case initialAuthToken cfg of
        None \<Rightarrow> w\<lparr>signin := Pending Anonymous\<rparr>
      | Some t \<Rightarrow> if t \<noteq> [] then w\<lparr>signin := Pending (CustomToken t)\<rparr>
                  else w\<lparr>signin := Pending Anonymous\<rparr>)"

definition effect1 :: "config \<Rightarrow> world \<Rightarrow> world" where
  "effect1 cfg w =
     (if \<not> truthy (apiKey cfg) then
        w\<lparr>console := console w @
             [ConsoleError ''Firebase configuration missing. Cannot initialize Firestore/Auth.''],
          isAuthReady := True\<rparr>
      else
        attemptAuth cfg (w\<lparr>db := Some Firestore, auth := Some FirebaseAuth, auth_listener := True\<rparr>))"

subsection \<open>Effect 2: track the page view\<close>

text \<open>\<^verbatim>\<open>setDoc(analyticsDocPath, { count: increment(1) }, { merge: true })\<close>\<close>

definition trackPageView :: "doc_ref \<Rightarrow> world \<Rightarrow> world" where
  "trackPageView p w =
     w\<lparr>writes := writes w @ [\<lparr>w_ref = p, w_data = [(''count'', Increment 1)], w_merge = True\<rparr>]\<rparr>"

text \<open>
  The effect bodies read \<open>isAuthReady\<close> and \<open>analyticsDocPath\<close> from the render \<open>r\<close>
  that scheduled them and act on the current world \<open>w\<close>.
\<close>

definition effect2 :: "config \<Rightarrow> world \<Rightarrow> world \<Rightarrow> world" where
  "effect2 cfg r w =
     (if \<not> isAuthReady r then w
      else case analyticsDocPath cfg r of
             None \<Rightarrow> w
           | Some p \<Rightarrow> trackPageView p w)"

subsection \<open>Effect 3: subscribe to the counter document\<close>

text \<open>The success callback handed to \<^verbatim>\<open>onSnapshot\<close>; \<open>None\<close> is a snapshot whose
  \<^verbatim>\<open>exists()\<close> is false.\<close>

definition snapshotCallback :: "document option \<Rightarrow> world \<Rightarrow> world" where
  "snapshotCallback docSnapshot w =
     (case docSnapshot of
        Some data \<Rightarrow> w\<lparr>viewCount := js_or (field data ''count'') (JNum 0)\<rparr>
      | None \<Rightarrow> w\<lparr>viewCount := JNum 0\<rparr>)"

definition snapshotErrorCallback :: "world \<Rightarrow> world" where
  "snapshotErrorCallback w =
     w\<lparr>console := console w @ [ConsoleError ''Error listening to analytics data:'']\<rparr>"

definition effect3 :: "config \<Rightarrow> world \<Rightarrow> world \<Rightarrow> world" where
  "effect3 cfg r w =
     (if \<not> isAuthReady r then w
      else case analyticsDocPath cfg r of
             None \<Rightarrow> w
           | Some p \<Rightarrow> w\<lparr>snapshot_sub := Some p\<rparr>)"

definition cleanup3 :: "world \<Rightarrow> world" where
  "cleanup3 w = w\<lparr>snapshot_sub := None\<rparr>"

subsection \<open>React: dependency arrays, commit, mount and unmount\<close>

text \<open>The dependency array \<^verbatim>\<open>[isAuthReady, analyticsDocPath]\<close> of effects 2 and 3.\<close>

definition deps_of :: "config \<Rightarrow> world \<Rightarrow> bool \<times> doc_ref option" where
  "deps_of cfg r = (isAuthReady r, analyticsDocPath cfg r)"

text \<open>An effect runs after a render when its dependencies differ from those of its
  last run (or it has not run since the mount); its previous cleanup runs first.\<close>

definition useEffect2 :: "config \<Rightarrow> world \<Rightarrow> world \<Rightarrow> world" where
  "useEffect2 cfg r w =
     (if deps2 w = Some (deps_of cfg r) then w
      else (effect2 cfg r w)\<lparr>deps2 := Some (deps_of cfg r)\<rparr>)"

definition useEffect3 :: "config \<Rightarrow> world \<Rightarrow> world \<Rightarrow> world" where
  "useEffect3 cfg r w =
     (if deps3 w = Some (deps_of cfg r) then w
      else (effect3 cfg r (cleanup3 w))\<lparr>deps3 := Some (deps_of cfg r)\<rparr>)"

text \<open>A re-render after state setters have been applied, followed by its effects.\<close>

definition commit :: "config \<Rightarrow> world \<Rightarrow> world" where
  "commit cfg w = (if \<not> mounted w then w else useEffect3 cfg w (useEffect2 cfg w w))"

text \<open>
  Mounting: the first render sees the initial state; effects 1, 2, 3 run in order with
  that render's values; the setters called by effect 1 then cause a re-render.
\<close>

definition mount :: "config \<Rightarrow> world \<Rightarrow> world" where
  "mount cfg w =
     (if mounted w then w
      else (let r = w\<lparr>mounted := True\<rparr>;
                w1 = effect1 cfg r;
                w2 = useEffect2 cfg r w1;
                w3 = useEffect3 cfg r w2
            in commit cfg w3))"

text \<open>
  Unmounting runs the cleanups (both \<^verbatim>\<open>unsubscribe()\<close> calls) and discards the state
  cells. Console output, issued writes, pending promises and the identity provider
  outlive the component.
\<close>

definition unmount :: "world \<Rightarrow> world" where
  "unmount w =
     (if \<not> mounted w then w
      else w\<lparr>db := None, auth := None, userId := None, isAuthReady := False,
             viewCount := JNum 0, loginEmail := [], loginPassword := [],
             isLoggingIn := False, showLogin := False, mounted := False,
             deps2 := None, deps3 := None, toasts := [],
             auth_listener := False, snapshot_sub := None\<rparr>)"

subsection \<open>Authentication handlers\<close>

definition handleLogin :: "world \<Rightarrow> world" where
  "handleLogin w =
     (if isLoggingIn w \<or> auth w = None then w
      else if loginEmail w \<noteq> MOCK_ADMIN_EMAIL \<or> loginPassword w \<noteq> MOCK_ADMIN_PASSWORD then
        showToast (''Invalid credentials. Use 'editor@thecurrent.edu' / 'password123'' @ [CHR 0x27]) True w
      else
        (showToast ''Admin login successful. (Simulation: Real authentication requires a secure backend).''
           False (w\<lparr>isLoggingIn := True\<rparr>))\<lparr>showLogin := False, isLoggingIn := False\<rparr>)"

text \<open>
  \<^verbatim>\<open>handleSignOut\<close>; \<open>ok\<close> tells whether \<^verbatim>\<open>signOut(auth)\<close> resolves. A successful
  sign-out clears the provider's user, and the provider reports that to the
  registered listener.
\<close>

definition handleSignOut :: "bool \<Rightarrow> world \<Rightarrow> world" where
  "handleSignOut ok w =
     (if auth w = None then w
      else if ok then
        (let w1 = w\<lparr>provider_user := None\<rparr>;
             w2 = (if auth_listener w1 then authStateCallback None w1 else w1)
         in (showToast ''Signed out successfully. Viewing as public.'' False w2)\<lparr>showLogin := False\<rparr>)
      else
        showToast ''Sign out failed.'' True
          (w\<lparr>console := console w @ [ConsoleError ''Sign out failed:'']\<rparr>))"

subsection \<open>Events\<close>

datatype event =
    Mount
  | Unmount
  | AuthStateChanged
  | SignInResolved string
  | SignInRejected
  | WriteSettled bool
  | Snapshot "document option"
  | SnapshotError
  | ChangeEmail string
  | ChangePassword string
  | ClickEditorLogin
  | ClickCancel
  | SubmitLogin
  | ClickSignOut bool

definition is_pending :: "signin_state \<Rightarrow> bool" where
  "is_pending s = (case s of Pending k \<Rightarrow> True | _ \<Rightarrow> False)"

text \<open>
  What one event does. Callbacks arrive only while their listener is registered, a
  promise settles only while it is pending, and a control can be used only while it
  is rendered (the sign-out button when \<open>isAdmin\<close>, the login form when \<open>showLogin\<close>).
  Every event is followed by the re-render it causes.
\<close>

definition handle :: "config \<Rightarrow> world \<Rightarrow> event \<Rightarrow> world" where
  "handle cfg w e =
     (case e of
        Mount \<Rightarrow> mount cfg w
      | Unmount \<Rightarrow> unmount w
      | AuthStateChanged \<Rightarrow>
          if auth_listener w then authStateCallback (provider_user w) w else w
      | SignInResolved uid \<Rightarrow>
          if is_pending (signin w) then
            (let w1 = w\<lparr>provider_user := Some uid, signin := Resolved\<rparr>
             in if auth_listener w1 then authStateCallback (Some uid) w1 else w1)
          else w
      | SignInRejected \<Rightarrow>
          if is_pending (signin w) then
            w\<lparr>signin := Rejected,
              console := console w @ [ConsoleError ''Firebase Auth Error during initialization:'']\<rparr>
          else w
      | WriteSettled ok \<Rightarrow>
          if settled w < length (writes w) then
            w\<lparr>settled := Suc (settled w),
              console := console w @
                [if ok then ConsoleLog ''Page view tracked successfully.''
                 else ConsoleError ''Error tracking page view:'']\<rparr>
          else w
      | Snapshot d \<Rightarrow> if snapshot_sub w \<noteq> None then snapshotCallback d w else w
      | SnapshotError \<Rightarrow> if snapshot_sub w \<noteq> None then snapshotErrorCallback w else w
      | ChangeEmail s \<Rightarrow> if mounted w \<and> showLogin w then w\<lparr>loginEmail := s\<rparr> else w
      | ChangePassword s \<Rightarrow> if mounted w \<and> showLogin w then w\<lparr>loginPassword := s\<rparr> else w
      | ClickEditorLogin \<Rightarrow> if mounted w \<and> \<not> isAdmin w then w\<lparr>showLogin := True\<rparr> else w
      | ClickCancel \<Rightarrow> if mounted w \<and> showLogin w then w\<lparr>showLogin := False\<rparr> else w
      | SubmitLogin \<Rightarrow> if mounted w \<and> showLogin w then handleLogin w else w
      | ClickSignOut ok \<Rightarrow> if mounted w \<and> isAdmin w then handleSignOut ok w else w)"

definition step :: "config \<Rightarrow> world \<Rightarrow> event \<Rightarrow> world" where
  "step cfg w e = commit cfg (handle cfg w e)"

definition run :: "config \<Rightarrow> event list \<Rightarrow> world" where
  "run cfg es = foldl (step cfg) init_world es"

text \<open>The one write request the component can build for a configuration.\<close>

definition the_path :: "config \<Rightarrow> doc_ref" where
  "the_path cfg =
     DocRef Firestore (''/artifacts/'' @ appId cfg @ ''/public/data/analytics/olhs_current_views'')"

definition increment_write :: "config \<Rightarrow> write_req" where
  "increment_write cfg = \<lparr>w_ref = the_path cfg, w_data = [(''count'', Increment 1)], w_merge = True\<rparr>"

section \<open>Auxiliary definitions for the proofs\<close>

text \<open>Two concrete configurations: one complete, one without the access key.\<close>

definition example_config :: config where
  "example_config = \<lparr>app_id_global = None, apiKey = JStr ''AIza'', initial_auth_token_global = None\<rparr>"

definition example_config_no_key :: config where
  "example_config_no_key = \<lparr>app_id_global = None, apiKey = JUndefined, initial_auth_token_global = None\<rparr>"

text \<open>The state cells and standing resources that make up the counter subsystem.\<close>

definition counter_state ::
  "world \<Rightarrow> firestore option \<times> bool \<times> jsval \<times> write_req list \<times> doc_ref option" where
  "counter_state w = (db w, isAuthReady w, viewCount w, writes w, snapshot_sub w)"

text \<open>The \<open>count\<close> field of the document stored under a reference.\<close>

definition stored_count :: "store \<Rightarrow> doc_ref \<Rightarrow> jsval" where
  "stored_count s p = (case s p of None \<Rightarrow> JUndefined | Some d \<Rightarrow> field d ''count'')"

fun is_SignInResolved :: "event \<Rightarrow> bool" where
  "is_SignInResolved (SignInResolved u) = True"
| "is_SignInResolved e = False"

text \<open>What holds of every reachable world when the configuration has no access key.\<close>

definition nokey :: "world \<Rightarrow> bool" where
  "nokey w \<longleftrightarrow>
     viewCount w = JNum 0 \<and> signin w = NotStarted \<and> userId w = None \<and> settled w = 0 \<and>
     writes w = [] \<and>
     set (console w) \<subseteq> {ConsoleError ''Firebase configuration missing. Cannot initialize Firestore/Auth.''} \<and>
     (mounted w \<longrightarrow> console w \<noteq> [])"

text \<open>
  What holds of every world a run can reach: a mounted component has run its effects
  for the current dependencies and holds the handles exactly when the configuration
  has the key; an unmounted one has its cells at their initial values; the counter
  subscription stands exactly while the flag is set and the path is known.
\<close>

definition inv :: "config \<Rightarrow> world \<Rightarrow> bool" where
  "inv cfg w \<longleftrightarrow>
     (if mounted w then
        deps2 w = Some (deps_of cfg w) \<and> deps3 w = Some (deps_of cfg w) \<and>
        db w = (if truthy (apiKey cfg) then Some Firestore else None) \<and>
        auth w = (if truthy (apiKey cfg) then Some FirebaseAuth else None) \<and>
        auth_listener w = truthy (apiKey cfg) \<and>
        (truthy (apiKey cfg) \<or> isAuthReady w)
      else
        db w = None \<and> auth w = None \<and> userId w = None \<and> \<not> isAuthReady w \<and>
        viewCount w = JNum 0 \<and> \<not> auth_listener w \<and> deps2 w = None \<and> deps3 w = None) \<and>
     snapshot_sub w = (if isAuthReady w then analyticsDocPath cfg w else None) \<and>
     (userId w = None \<or> isAuthReady w)"


section \<open>How effects, commit and mount act on the fields\<close>

lemmas effect_defs = useEffect2_def useEffect3_def deps_of_def analyticsDocPath_def effect2_def
  effect3_def cleanup3_def trackPageView_def

lemmas handler_defs = authStateCallback_def snapshotCallback_def snapshotErrorCallback_def
  handleLogin_def handleSignOut_def showToast_def unmount_def

lemma commit_frame [simp]:
  "db (commit cfg w) = db w"
  "auth (commit cfg w) = auth w"
  "userId (commit cfg w) = userId w"
  "isAuthReady (commit cfg w) = isAuthReady w"
  "viewCount (commit cfg w) = viewCount w"
  "mounted (commit cfg w) = mounted w"
  "console (commit cfg w) = console w"
  "auth_listener (commit cfg w) = auth_listener w"
  "provider_user (commit cfg w) = provider_user w"
  "signin (commit cfg w) = signin w"
  "settled (commit cfg w) = settled w"
  "toasts (commit cfg w) = toasts w"
  "showLogin (commit cfg w) = showLogin w"
  "isLoggingIn (commit cfg w) = isLoggingIn w"
  "loginEmail (commit cfg w) = loginEmail w"
  "loginPassword (commit cfg w) = loginPassword w"
  by (simp_all add: commit_def effect_defs split: option.splits)

lemma commit_path [simp]:
  "analyticsDocPath cfg (commit cfg w) = analyticsDocPath cfg w"
  "deps_of cfg (commit cfg w) = deps_of cfg w"
  by (simp_all add: analyticsDocPath_def deps_of_def)

lemma commit_deps:
  "mounted w \<Longrightarrow> deps2 (commit cfg w) = Some (deps_of cfg w)"
  "mounted w \<Longrightarrow> deps3 (commit cfg w) = Some (deps_of cfg w)"
  by (simp_all add: commit_def effect_defs split: option.splits)

lemma commit_unmounted [simp]: "\<not> mounted w \<Longrightarrow> commit cfg w = w"
  by (simp add: commit_def)

lemma commit_sub:
  "mounted w \<Longrightarrow> snapshot_sub (commit cfg w) =
     (if deps3 w = Some (deps_of cfg w) then snapshot_sub w
      else if isAuthReady w then analyticsDocPath cfg w else None)"
  by (simp add: commit_def effect_defs split: option.splits)

lemma commit_writes:
  "mounted w \<Longrightarrow> writes (commit cfg w) =
     (if deps2 w = Some (deps_of cfg w) then writes w
      else case analyticsDocPath cfg w of None \<Rightarrow> writes w
           | Some p \<Rightarrow> if isAuthReady w then writes w @ [\<lparr>w_ref = p, w_data = [(''count'', Increment 1)], w_merge = True\<rparr>] else writes w)"
  by (simp add: commit_def effect_defs split: option.splits)


lemma useEffect2_frame [simp]:
  "db (useEffect2 cfg r w) = db w"
  "auth (useEffect2 cfg r w) = auth w"
  "userId (useEffect2 cfg r w) = userId w"
  "isAuthReady (useEffect2 cfg r w) = isAuthReady w"
  "viewCount (useEffect2 cfg r w) = viewCount w"
  "mounted (useEffect2 cfg r w) = mounted w"
  "console (useEffect2 cfg r w) = console w"
  "auth_listener (useEffect2 cfg r w) = auth_listener w"
  "provider_user (useEffect2 cfg r w) = provider_user w"
  "signin (useEffect2 cfg r w) = signin w"
  "settled (useEffect2 cfg r w) = settled w"
  "toasts (useEffect2 cfg r w) = toasts w"
  "deps3 (useEffect2 cfg r w) = deps3 w"
  "snapshot_sub (useEffect2 cfg r w) = snapshot_sub w"
  by (simp_all add: effect_defs split: option.splits)

lemma useEffect3_frame [simp]:
  "db (useEffect3 cfg r w) = db w"
  "auth (useEffect3 cfg r w) = auth w"
  "userId (useEffect3 cfg r w) = userId w"
  "isAuthReady (useEffect3 cfg r w) = isAuthReady w"
  "viewCount (useEffect3 cfg r w) = viewCount w"
  "mounted (useEffect3 cfg r w) = mounted w"
  "console (useEffect3 cfg r w) = console w"
  "auth_listener (useEffect3 cfg r w) = auth_listener w"
  "provider_user (useEffect3 cfg r w) = provider_user w"
  "signin (useEffect3 cfg r w) = signin w"
  "settled (useEffect3 cfg r w) = settled w"
  "toasts (useEffect3 cfg r w) = toasts w"
  "deps2 (useEffect3 cfg r w) = deps2 w"
  "writes (useEffect3 cfg r w) = writes w"
  by (simp_all add: effect_defs split: option.splits)

lemma useEffect2_writes:
  "writes (useEffect2 cfg r w) =
     (if deps2 w = Some (deps_of cfg r) then writes w
      else case analyticsDocPath cfg r of None \<Rightarrow> writes w
           | Some p \<Rightarrow> if isAuthReady r
               then writes w @ [\<lparr>w_ref = p, w_data = [(''count'', Increment 1)], w_merge = True\<rparr>]
               else writes w)"
  by (simp add: useEffect2_def effect2_def trackPageView_def split: option.splits)

lemma useEffect3_sub:
  "snapshot_sub (useEffect3 cfg r w) =
     (if deps3 w = Some (deps_of cfg r) then snapshot_sub w
      else if isAuthReady r then analyticsDocPath cfg r else None)"
  by (simp add: useEffect3_def effect3_def cleanup3_def split: option.splits)

lemma effect1_fields:
  "db (effect1 cfg w) = (if truthy (apiKey cfg) then Some Firestore else db w)"
  "auth (effect1 cfg w) = (if truthy (apiKey cfg) then Some FirebaseAuth else auth w)"
  "userId (effect1 cfg w) = userId w"
  "isAuthReady (effect1 cfg w) = (if truthy (apiKey cfg) then isAuthReady w else True)"
  "viewCount (effect1 cfg w) = viewCount w"
  "mounted (effect1 cfg w) = mounted w"
  "auth_listener (effect1 cfg w) = (if truthy (apiKey cfg) then True else auth_listener w)"
  "provider_user (effect1 cfg w) = provider_user w"
  "settled (effect1 cfg w) = settled w"
  "toasts (effect1 cfg w) = toasts w"
  "deps2 (effect1 cfg w) = deps2 w"
  "deps3 (effect1 cfg w) = deps3 w"
  "writes (effect1 cfg w) = writes w"
  "snapshot_sub (effect1 cfg w) = snapshot_sub w"
  "console (effect1 cfg w) =
     (if truthy (apiKey cfg) then console w
      else console w @ [ConsoleError ''Firebase configuration missing. Cannot initialize Firestore/Auth.''])"
  "signin (effect1 cfg w) =
     (if truthy (apiKey cfg) then
        (case initialAuthToken cfg of None \<Rightarrow> Pending Anonymous
         | Some t \<Rightarrow> if t \<noteq> [] then Pending (CustomToken t) else Pending Anonymous)
      else signin w)"
  by (simp_all add: effect1_def attemptAuth_def split: option.splits)


lemma analyticsDocPath_db:
  "analyticsDocPath cfg w = (if db w = None then None else Some (the_path cfg))"
proof (cases "db w")
  case None
  then show ?thesis by (simp add: analyticsDocPath_def)
next
  case (Some d)
  then show ?thesis by (cases d) (simp add: analyticsDocPath_def the_path_def)
qed

lemma deps_of_db:
  "deps_of cfg w = (isAuthReady w, if db w = None then None else Some (the_path cfg))"
  by (simp add: deps_of_def analyticsDocPath_db)

lemma mount_fields:
  assumes "\<not> mounted w"
  shows "db (mount cfg w) = (if truthy (apiKey cfg) then Some Firestore else db w)"
    and "auth (mount cfg w) = (if truthy (apiKey cfg) then Some FirebaseAuth else auth w)"
    and "userId (mount cfg w) = userId w"
    and "isAuthReady (mount cfg w) = (if truthy (apiKey cfg) then isAuthReady w else True)"
    and "viewCount (mount cfg w) = viewCount w"
    and "mounted (mount cfg w)"
    and "auth_listener (mount cfg w) = (if truthy (apiKey cfg) then True else auth_listener w)"
    and "provider_user (mount cfg w) = provider_user w"
    and "settled (mount cfg w) = settled w"
    and "console (mount cfg w) =
     (if truthy (apiKey cfg) then console w
      else console w @ [ConsoleError ''Firebase configuration missing. Cannot initialize Firestore/Auth.''])"
    and "signin (mount cfg w) = signin (effect1 cfg w)"
  using assms
  by (simp_all add: mount_def Let_def effect1_fields commit_def)


lemma commit_deps_db:
  "mounted w \<Longrightarrow> deps2 (commit cfg w) = Some (deps_of cfg w) \<and> deps3 (commit cfg w) = Some (deps_of cfg w)"
  by (simp add: commit_deps)

lemma mount_deps:
  assumes "\<not> mounted w"
  shows "deps2 (mount cfg w) = Some (deps_of cfg (mount cfg w))"
    and "deps3 (mount cfg w) = Some (deps_of cfg (mount cfg w))"
  using assms
  by (simp_all add: mount_def Let_def commit_deps effect1_fields deps_of_db)

lemma mount_writes:
  assumes "\<not> mounted w" "db w = None" "\<not> isAuthReady w"
  shows "writes (mount cfg w) = writes w"
  using assms
  by (simp add: mount_def Let_def commit_writes useEffect2_writes effect1_fields deps_of_db analyticsDocPath_db)

lemma useEffect_deps [simp]:
  "deps2 (useEffect2 cfg r w) = Some (deps_of cfg r)"
  "deps3 (useEffect3 cfg r w) = Some (deps_of cfg r)"
  by (simp_all add: useEffect2_def useEffect3_def)

lemma mount_sub:
  assumes "\<not> mounted w" "db w = None" "\<not> isAuthReady w" "snapshot_sub w = None"
  shows "snapshot_sub (mount cfg w) = None"
  using assms
  by (simp add: mount_def Let_def commit_sub useEffect3_sub effect1_fields deps_of_db analyticsDocPath_db)



lemma inv_init: "inv cfg init_world"
  by (simp add: inv_def init_world_def analyticsDocPath_def)

lemma inv_step_unmounted:
  assumes "inv cfg w" "\<not> mounted w"
  shows "inv cfg (step cfg w e)"
proof (cases e)
  case Mount
  from assms have w: "db w = None" "\<not> isAuthReady w" "snapshot_sub w = None" "userId w = None"
    by (simp_all add: inv_def)
  have m: "mounted (mount cfg w)" using assms by (simp add: mount_fields)
  show ?thesis using assms w m
    by (simp add: Mount step_def handle_def inv_def commit_deps commit_sub mount_fields mount_deps mount_sub
        analyticsDocPath_db deps_of_db)
next
  case Unmount
  then show ?thesis using assms by (simp add: step_def handle_def unmount_def)
next
  case AuthStateChanged
  then show ?thesis using assms by (simp add: step_def handle_def inv_def)
next
  case (SignInResolved u)
  then show ?thesis using assms
    by (simp add: step_def handle_def inv_def analyticsDocPath_db deps_of_db)
next
  case SignInRejected
  then show ?thesis using assms
    by (simp add: step_def handle_def inv_def analyticsDocPath_db deps_of_db)
next
  case (WriteSettled ok)
  then show ?thesis using assms
    by (simp add: step_def handle_def inv_def analyticsDocPath_db deps_of_db)
next
  case (Snapshot d)
  then show ?thesis using assms by (simp add: step_def handle_def inv_def)
next
  case SnapshotError
  then show ?thesis using assms by (simp add: step_def handle_def inv_def)
next
  case (ChangeEmail s)
  then show ?thesis using assms by (simp add: step_def handle_def)
next
  case (ChangePassword s)
  then show ?thesis using assms by (simp add: step_def handle_def)
next
  case ClickEditorLogin
  then show ?thesis using assms by (simp add: step_def handle_def)
next
  case ClickCancel
  then show ?thesis using assms by (simp add: step_def handle_def)
next
  case SubmitLogin
  then show ?thesis using assms by (simp add: step_def handle_def)
next
  case (ClickSignOut ok)
  then show ?thesis using assms by (simp add: step_def handle_def)
qed


lemma commit_idle:
  "deps2 w = Some (deps_of cfg w) \<Longrightarrow> deps3 w = Some (deps_of cfg w) \<Longrightarrow> commit cfg w = w"
  by (simp add: commit_def useEffect2_def useEffect3_def)

lemma inv_step_mounted:
  assumes "inv cfg w" "mounted w"
  shows "inv cfg (step cfg w e)"
proof -
  from assms have d: "deps2 w = Some (deps_of cfg w)" "deps3 w = Some (deps_of cfg w)"
    and s: "snapshot_sub w = (if isAuthReady w then analyticsDocPath cfg w else None)"
    and h: "db w = (if truthy (apiKey cfg) then Some Firestore else None)"
      "auth w = (if truthy (apiKey cfg) then Some FirebaseAuth else None)"
      "auth_listener w = truthy (apiKey cfg)" "\<not> truthy (apiKey cfg) \<longrightarrow> isAuthReady w"
      "userId w \<noteq> None \<longrightarrow> isAuthReady w"
    by (auto simp add: inv_def)
  note facts = assms(2) d s h
  show ?thesis
  proof (cases e)
    case Mount
    then show ?thesis using assms by (simp add: step_def handle_def mount_def commit_idle d)
  next
    case Unmount
    then show ?thesis using assms(2)
      by (simp add: step_def handle_def unmount_def inv_def analyticsDocPath_db)
  next
    case AuthStateChanged
    then show ?thesis using facts
      by (auto simp add: step_def handle_def inv_def authStateCallback_def commit_deps commit_sub
          analyticsDocPath_db deps_of_db split: option.splits)
  next
    case (SignInResolved u)
    then show ?thesis using facts
      by (auto simp add: step_def handle_def inv_def authStateCallback_def commit_deps commit_sub
          analyticsDocPath_db deps_of_db Let_def)
  next
    case SignInRejected
    then show ?thesis using facts
      by (auto simp add: step_def handle_def inv_def commit_deps commit_sub analyticsDocPath_db deps_of_db)
  next
    case (WriteSettled ok)
    then show ?thesis using facts
      by (auto simp add: step_def handle_def inv_def commit_deps commit_sub analyticsDocPath_db deps_of_db)
  next
    case (Snapshot d)
    then show ?thesis using facts
      by (auto simp add: step_def handle_def inv_def snapshotCallback_def commit_deps commit_sub
          analyticsDocPath_db deps_of_db split: option.splits)
  next
    case SnapshotError
    then show ?thesis using facts
      by (auto simp add: step_def handle_def inv_def snapshotErrorCallback_def commit_deps commit_sub
          analyticsDocPath_db deps_of_db)
  next
    case (ChangeEmail x)
    then show ?thesis using facts
      by (auto simp add: step_def handle_def inv_def commit_deps commit_sub analyticsDocPath_db deps_of_db)
  next
    case (ChangePassword x)
    then show ?thesis using facts
      by (auto simp add: step_def handle_def inv_def commit_deps commit_sub analyticsDocPath_db deps_of_db)
  next
    case ClickEditorLogin
    then show ?thesis using facts
      by (auto simp add: step_def handle_def inv_def commit_deps commit_sub analyticsDocPath_db deps_of_db)
  next
    case ClickCancel
    then show ?thesis using facts
      by (auto simp add: step_def handle_def inv_def commit_deps commit_sub analyticsDocPath_db deps_of_db)
  next
    case SubmitLogin
    then show ?thesis using facts
      by (auto simp add: step_def handle_def inv_def handleLogin_def showToast_def commit_deps commit_sub
          analyticsDocPath_db deps_of_db)
  next
    case (ClickSignOut ok)
    then show ?thesis using facts
      by (auto simp add: step_def handle_def inv_def handleSignOut_def showToast_def authStateCallback_def
          isAdmin_def isLoggedIn_def Let_def
          commit_deps commit_sub analyticsDocPath_db deps_of_db split: option.splits)
  qed
qed

lemma inv_step: "inv cfg w \<Longrightarrow> inv cfg (step cfg w e)"
  by (cases "mounted w") (simp_all add: inv_step_mounted inv_step_unmounted)

lemma inv_run: "inv cfg (run cfg es)"
  by (induction es rule: rev_induct) (simp_all add: run_def inv_init inv_step)

lemma run_snoc: "run cfg (es @ [e]) = step cfg (run cfg es) e"
  by (simp add: run_def)

lemma run_Nil: "run cfg [] = init_world"
  by (simp add: run_def)

lemma handle_writes: "inv cfg w \<Longrightarrow> writes (handle cfg w e) = writes w"
proof (cases e)
  case Mount
  assume "inv cfg w"
  then show ?thesis using Mount
    by (cases "mounted w") (simp_all add: handle_def mount_writes inv_def, simp add: mount_def)
qed (simp_all add: handle_def handler_defs Let_def split: option.splits)

section \<open>How one event changes the writes and the readiness flag\<close>

lemma step_writes_unmounted:
  assumes "inv cfg w" "\<not> mounted w"
  shows "writes (step cfg w e) = writes w"
proof (cases e)
  case Mount
  from assms have w: "db w = None" "\<not> isAuthReady w" "deps2 w = None" "deps3 w = None"
    by (simp_all add: inv_def)
  have "commit cfg (mount cfg w) = mount cfg w"
    using assms(2) by (simp add: commit_idle mount_deps)
  then show ?thesis using assms w Mount
    by (simp add: step_def handle_def mount_writes)
qed (use assms in \<open>simp_all add: step_def handle_def unmount_def isAdmin_def isLoggedIn_def inv_def\<close>)

lemma step_writes_mounted:
  assumes "inv cfg w" "mounted w"
  shows "writes (step cfg w e) =
     (if truthy (apiKey cfg) \<and> \<not> isAuthReady w \<and> isAuthReady (step cfg w e)
      then writes w @ [increment_write cfg] else writes w)"
proof -
  from assms have d: "deps2 w = Some (deps_of cfg w)" "deps3 w = Some (deps_of cfg w)"
    and h: "db w = (if truthy (apiKey cfg) then Some Firestore else None)"
      "auth w = (if truthy (apiKey cfg) then Some FirebaseAuth else None)"
      "auth_listener w = truthy (apiKey cfg)" "\<not> truthy (apiKey cfg) \<longrightarrow> isAuthReady w"
      "userId w \<noteq> None \<longrightarrow> isAuthReady w"
    by (auto simp add: inv_def)
  note facts = assms(2) d h
  show ?thesis
  proof (cases e)
    case Mount
    then show ?thesis using assms by (simp add: step_def handle_def mount_def commit_idle d)
  next
    case Unmount
    then show ?thesis using assms(2) by (simp add: step_def handle_def unmount_def)
  next
    case AuthStateChanged
    then show ?thesis using facts
      by (auto simp add: step_def handle_def authStateCallback_def commit_writes
          analyticsDocPath_db deps_of_db increment_write_def split: option.splits)
  next
    case (SignInResolved u)
    then show ?thesis using facts
      by (auto simp add: step_def handle_def authStateCallback_def commit_writes
          analyticsDocPath_db deps_of_db increment_write_def Let_def)
  next
    case SignInRejected
    then show ?thesis using facts
      by (auto simp add: step_def handle_def commit_writes analyticsDocPath_db deps_of_db)
  next
    case (WriteSettled ok)
    then show ?thesis using facts
      by (auto simp add: step_def handle_def commit_writes analyticsDocPath_db deps_of_db)
  next
    case (Snapshot d)
    then show ?thesis using facts
      by (auto simp add: step_def handle_def snapshotCallback_def commit_writes
          analyticsDocPath_db deps_of_db split: option.splits)
  next
    case SnapshotError
    then show ?thesis using facts
      by (auto simp add: step_def handle_def snapshotErrorCallback_def commit_writes
          analyticsDocPath_db deps_of_db)
  next
    case (ChangeEmail x)
    then show ?thesis using facts
      by (auto simp add: step_def handle_def commit_writes analyticsDocPath_db deps_of_db)
  next
    case (ChangePassword x)
    then show ?thesis using facts
      by (auto simp add: step_def handle_def commit_writes analyticsDocPath_db deps_of_db)
  next
    case ClickEditorLogin
    then show ?thesis using facts
      by (auto simp add: step_def handle_def commit_writes analyticsDocPath_db deps_of_db)
  next
    case ClickCancel
    then show ?thesis using facts
      by (auto simp add: step_def handle_def commit_writes analyticsDocPath_db deps_of_db)
  next
    case SubmitLogin
    then show ?thesis using facts
      by (auto simp add: step_def handle_def handleLogin_def showToast_def commit_writes
          analyticsDocPath_db deps_of_db)
  next
    case (ClickSignOut ok)
    then show ?thesis using facts
      by (auto simp add: step_def handle_def handleSignOut_def showToast_def authStateCallback_def
          isAdmin_def isLoggedIn_def Let_def
          commit_writes analyticsDocPath_db deps_of_db split: option.splits)
  qed
qed


lemma step_writes:
  assumes "inv cfg w"
  shows "writes (step cfg w e) =
     (if mounted w \<and> truthy (apiKey cfg) \<and> \<not> isAuthReady w \<and> isAuthReady (step cfg w e)
      then writes w @ [increment_write cfg] else writes w)"
  using assms by (cases "mounted w") (simp_all add: step_writes_mounted step_writes_unmounted)

lemma step_mounted:
  "mounted (step cfg w e) = (if e = Mount then True else if e = Unmount then False else mounted w)"
proof (cases e)
  case Mount
  then show ?thesis
    by (cases "mounted w") (simp_all add: step_def handle_def mount_fields, simp add: mount_def)
qed (simp_all add: step_def handle_def handler_defs Let_def split: option.splits)

lemma step_ready_mounted:
  assumes "inv cfg w" "mounted w"
  shows "isAuthReady (step cfg w e) =
     (e \<noteq> Unmount \<and> (isAuthReady w \<or> e = AuthStateChanged \<or> (is_SignInResolved e \<and> is_pending (signin w))))"
proof -
  from assms have h: "auth_listener w = truthy (apiKey cfg)" "\<not> truthy (apiKey cfg) \<longrightarrow> isAuthReady w"
      "userId w \<noteq> None \<longrightarrow> isAuthReady w"
    by (auto simp add: inv_def)
  show ?thesis
  proof (cases e)
    case Mount
    then show ?thesis using assms(2) by (simp add: step_def handle_def mount_def)
  next
    case (ClickSignOut ok)
    then show ?thesis using h assms(2)
      by (auto simp add: step_def handle_def handleSignOut_def showToast_def authStateCallback_def
          isAdmin_def isLoggedIn_def Let_def split: option.splits)
  qed (use h assms(2) in \<open>auto simp add: step_def handle_def handler_defs Let_def split: option.splits\<close>)
qed

lemma step_ready_unmounted:
  assumes "inv cfg w" "\<not> mounted w"
  shows "isAuthReady (step cfg w e) = (e = Mount \<and> \<not> truthy (apiKey cfg))"
proof -
  from assms have h: "\<not> isAuthReady w" "\<not> auth_listener w" "snapshot_sub w = None" "userId w = None"
    by (simp_all add: inv_def)
  show ?thesis
  proof (cases e)
    case Mount
    then show ?thesis using assms(2) h by (simp add: step_def handle_def mount_fields)
  qed (use h assms(2) in \<open>simp_all add: step_def handle_def handler_defs Let_def\<close>)
qed


lemma step_ready:
  assumes "inv cfg w"
  shows "isAuthReady (step cfg w e) =
     (if mounted w then
        e \<noteq> Unmount \<and> (isAuthReady w \<or> e = AuthStateChanged \<or> (is_SignInResolved e \<and> is_pending (signin w)))
      else e = Mount \<and> \<not> truthy (apiKey cfg))"
  using assms by (simp add: step_ready_mounted step_ready_unmounted)

lemma inv_ready_mounted: "inv cfg w \<Longrightarrow> isAuthReady w \<Longrightarrow> mounted w"
  by (cases "mounted w") (simp_all add: inv_def)

lemma inv_db: "inv cfg w \<Longrightarrow> db w = (if mounted w \<and> truthy (apiKey cfg) then Some Firestore else None)"
  by (cases "mounted w") (simp_all add: inv_def)

lemma writes_single_mount:
  "Unmount \<notin> set es \<Longrightarrow>
   writes (run cfg es) =
     (if isAuthReady (run cfg es) \<and> truthy (apiKey cfg) then [increment_write cfg] else [])"
proof (induction es rule: rev_induct)
  case Nil
  then show ?case by (simp add: run_Nil init_world_def)
next
  case (snoc e es)
  have i: "inv cfg (run cfg es)" by (rule inv_run)
  from snoc have w: "writes (run cfg es) =
     (if isAuthReady (run cfg es) \<and> truthy (apiKey cfg) then [increment_write cfg] else [])"
    and e: "e \<noteq> Unmount" by auto
  show ?case
    using i e w inv_ready_mounted [OF i]
    by (auto simp add: run_snoc step_writes [OF i] step_ready [OF i])
qed

lemma writes_mount_bound:
  "length (writes (run cfg es)) +
     (if mounted (run cfg es) \<and> \<not> (isAuthReady (run cfg es) \<and> truthy (apiKey cfg)) then 1 else 0)
   \<le> count_list es Mount"
proof (induction es rule: rev_induct)
  case Nil
  then show ?case by (simp add: run_Nil init_world_def)
next
  case (snoc e es)
  have i: "inv cfg (run cfg es)" by (rule inv_run)
  show ?case
    using snoc i inv_ready_mounted [OF i]
    by (auto simp add: run_snoc step_writes [OF i] step_ready [OF i] step_mounted split: if_splits)
qed

lemma writes_all_increment: "set (writes (run cfg es)) \<subseteq> {increment_write cfg}"
proof (induction es rule: rev_induct)
  case Nil
  then show ?case by (simp add: run_Nil init_world_def)
next
  case (snoc e es)
  then show ?case by (simp add: run_snoc step_writes [OF inv_run])
qed

lemma apply_increment_write:
  "apply_write s (increment_write cfg) (the_path cfg) =
     Some (case s (the_path cfg) of
             None \<Rightarrow> [''count'' \<mapsto> JNum 1]
           | Some d \<Rightarrow> d(''count'' \<mapsto> apply_field (d ''count'') (Increment 1)))"
  by (simp add: apply_write_def increment_write_def split: option.splits)

lemma nokey_step:
  assumes k: "\<not> truthy (apiKey cfg)" and i: "inv cfg w" and n: "nokey w"
  shows "nokey (step cfg w e)"
proof -
  from i k have h: "db w = None" "auth w = None" "\<not> auth_listener w" "snapshot_sub w = None"
    by (cases "mounted w"; simp add: inv_def analyticsDocPath_db)+
  from n have n': "viewCount w = JNum 0" "signin w = NotStarted" "userId w = None" "settled w = 0"
    "writes w = []"
    "set (console w) \<subseteq> {ConsoleError ''Firebase configuration missing. Cannot initialize Firestore/Auth.''}"
    "mounted w \<longrightarrow> console w \<noteq> []"
    by (simp_all add: nokey_def)
  have w: "writes (step cfg w e) = []"
    using k n' by (simp add: step_writes [OF i])
  show ?thesis
  proof (cases e)
    case Mount
    then show ?thesis using k h n' w
      by (cases "mounted w")
        (simp_all add: nokey_def step_def handle_def mount_fields effect1_fields, simp add: mount_def)
  qed (use k h n' w in \<open>simp_all add: nokey_def step_def handle_def handler_defs is_pending_def
        isAdmin_def isLoggedIn_def\<close>)
qed

lemma nokey_run: "\<not> truthy (apiKey cfg) \<Longrightarrow> nokey (run cfg es)"
proof (induction es rule: rev_induct)
  case Nil
  then show ?case by (simp add: run_Nil init_world_def nokey_def)
next
  case (snoc e es)
  then show ?case by (simp add: run_snoc nokey_step inv_run)
qed

lemma nokey_console:
  assumes "\<not> truthy (apiKey cfg)" "Mount \<in> set es"
  shows "console (run cfg es) \<noteq> []"
  using assms(2)
proof (induction es rule: rev_induct)
  case Nil
  then show ?case by simp
next
  case (snoc e es)
  have i: "inv cfg (run cfg es)" by (rule inv_run)
  have n: "nokey (run cfg es)" using assms(1) by (rule nokey_run)
  have m: "mounted (run cfg es) \<longrightarrow> console (run cfg es) \<noteq> []" using n by (simp add: nokey_def)
  have mono: "console (run cfg es) \<noteq> [] \<Longrightarrow> console (step cfg (run cfg es) e) \<noteq> []"
  proof (cases e)
    case Mount
    assume "console (run cfg es) \<noteq> []"
    then show ?thesis using Mount
      by (cases "mounted (run cfg es)")
        (simp_all add: step_def handle_def mount_fields, simp add: mount_def)
  qed (simp_all add: step_def handle_def handler_defs Let_def split: option.splits)
  show ?case
  proof (cases "e = Mount")
    case True
    have "mounted (step cfg (run cfg es) e)" using True by (simp add: step_mounted)
    moreover have "nokey (step cfg (run cfg es) e)" using assms(1) i n by (rule nokey_step)
    ultimately show ?thesis by (simp add: run_snoc nokey_def)
  next
    case False
    then have "Mount \<in> set es" using snoc.prems by simp
    then have "console (run cfg es) \<noteq> []" by (rule snoc.IH)
    then show ?thesis using mono by (simp add: run_snoc)
  qed
qed

lemma ready_stays:
  "isAuthReady (run cfg es) \<Longrightarrow> Unmount \<notin> set es' \<Longrightarrow> isAuthReady (run cfg (es @ es'))"
proof (induction es' rule: rev_induct)
  case Nil
  then show ?case by simp
next
  case (snoc e es')
  have i: "inv cfg (run cfg (es @ es'))" by (rule inv_run)
  from snoc have r: "isAuthReady (run cfg (es @ es'))" and e: "e \<noteq> Unmount" by auto
  have "isAuthReady (step cfg (run cfg (es @ es')) e)"
    using r e inv_ready_mounted [OF i r] by (simp add: step_ready [OF i])
  then show ?case by (simp add: run_snoc [symmetric])
qed

lemma ready_origin:
  "isAuthReady (run cfg es) \<Longrightarrow>
   \<not> truthy (apiKey cfg) \<or> AuthStateChanged \<in> set es \<or> (\<exists>u. SignInResolved u \<in> set es)"
proof (induction es rule: rev_induct)
  case Nil
  then show ?case by (simp add: run_Nil init_world_def)
next
  case (snoc e es)
  have i: "inv cfg (run cfg es)" by (rule inv_run)
  have r: "is_SignInResolved e \<Longrightarrow> \<exists>u. e = SignInResolved u" by (cases e) simp_all
  from snoc.prems have "isAuthReady (step cfg (run cfg es) e)" by (simp add: run_snoc)
  then show ?case using snoc.IH r
    by (auto simp add: step_ready [OF i] split: if_splits)
qed

lemma inv_listener_mounted: "inv cfg w \<Longrightarrow> auth_listener w \<Longrightarrow> mounted w"
  by (cases "mounted w") (simp_all add: inv_def)






lemma inv_sub:
  "inv cfg w \<Longrightarrow> snapshot_sub w = (if isAuthReady w then analyticsDocPath cfg w else None)"
  by (simp add: inv_def)

lemma handleLogin_frame:
  "db (handleLogin w) = db w" "isAuthReady (handleLogin w) = isAuthReady w"
  "viewCount (handleLogin w) = viewCount w" "writes (handleLogin w) = writes w"
  "snapshot_sub (handleLogin w) = snapshot_sub w" "userId (handleLogin w) = userId w"
  "provider_user (handleLogin w) = provider_user w" "signin (handleLogin w) = signin w"
  "mounted (handleLogin w) = mounted w"
  by (simp_all add: handleLogin_def showToast_def)

lemma handleSignOut_frame:
  "db (handleSignOut ok w) = db w" "viewCount (handleSignOut ok w) = viewCount w"
  "writes (handleSignOut ok w) = writes w" "snapshot_sub (handleSignOut ok w) = snapshot_sub w"
  "mounted (handleSignOut ok w) = mounted w" "deps2 (handleSignOut ok w) = deps2 w"
  "deps3 (handleSignOut ok w) = deps3 w"
  "userId (handleSignOut ok w) = None \<or> userId (handleSignOut ok w) = userId w"
  "isAuthReady w \<Longrightarrow> isAuthReady (handleSignOut ok w)"
  by (simp_all add: handleSignOut_def showToast_def authStateCallback_def Let_def)

lemma step_frame_login_signout:
  assumes i: "inv cfg w" and e: "e = SubmitLogin \<or> e = ClickSignOut ok"
  shows "counter_state (step cfg w e) = counter_state w"
proof -
  have i': "inv cfg (step cfg w e)" using i by (rule inv_step)
  have r: "isAuthReady (step cfg w e) = isAuthReady w"
    using e inv_ready_mounted [OF i] by (auto simp add: step_ready [OF i])
  have d: "db (step cfg w e) = db w"
    using e by (auto simp add: step_def handle_def handleLogin_frame handleSignOut_frame)
  have v: "viewCount (step cfg w e) = viewCount w"
    using e by (auto simp add: step_def handle_def handleLogin_frame handleSignOut_frame)
  have wr: "writes (step cfg w e) = writes w"
    using r by (simp add: step_writes [OF i])
  have s: "snapshot_sub (step cfg w e) = snapshot_sub w"
    using r d by (simp add: inv_sub [OF i] inv_sub [OF i'] analyticsDocPath_db)
  show ?thesis using r d v wr s by (simp add: counter_state_def)
qed

lemma step_snapshot_viewCount:
  "viewCount (step cfg w (Snapshot d)) =
     (if snapshot_sub w = None then viewCount w else viewCount (snapshotCallback d w'))"
  by (simp add: step_def handle_def snapshotCallback_def split: option.splits)

section \<open>The increment write\<close>

text \<open>
  Claim C3. When the guard of the tracking effect passes, the effect issues exactly one
  request: a merge write to the analytics document whose only field is
  \<open>count: increment(1)\<close>. The request does not depend on the locally mirrored count,
  so the addition is left to the store. Applied by the store, it creates the document
  with \<open>count = 1\<close> when the document is absent, and otherwise replaces \<open>count\<close> by the
  incremented value (\<open>n + 1\<close> for a stored integer \<open>n\<close>), keeping the other fields
  and the other documents.
\<close>

theorem C3_increment_write:
  assumes "isAuthReady r" and "analyticsDocPath cfg r = Some p"
  shows "writes (effect2 cfg r w) =
           writes w @ [\<lparr>w_ref = p, w_data = [(''count'', Increment 1)], w_merge = True\<rparr>]
    \<and> writes (effect2 cfg (r\<lparr>viewCount := v\<rparr>) (w\<lparr>viewCount := v'\<rparr>)) = writes (effect2 cfg r w)
    \<and> apply_write s (last (writes (effect2 cfg r w))) p =
           Some (case s p of
                   None \<Rightarrow> [''count'' \<mapsto> JNum 1]
                 | Some d \<Rightarrow> d(''count'' \<mapsto> apply_field (d ''count'') (Increment 1)))
    \<and> apply_field (Some (JNum n)) (Increment 1) = JNum (n + 1)
    \<and> (\<forall>p'. p' \<noteq> p \<longrightarrow> apply_write s (last (writes (effect2 cfg r w))) p' = s p')"
  using assms
  by (simp add: effect2_def trackPageView_def analyticsDocPath_def apply_write_def split: option.splits)

theorem C3_increment_write_witness:
  "isAuthReady (run example_config [Mount, AuthStateChanged])
   \<and> analyticsDocPath example_config (run example_config [Mount, AuthStateChanged])
       = Some (the_path example_config)
   \<and> apply_write Map.empty
        (last (writes (effect2 example_config (run example_config [Mount, AuthStateChanged]) init_world)))
        (the_path example_config) = Some [''count'' \<mapsto> JNum 1]
   \<and> apply_write [the_path example_config \<mapsto> [''count'' \<mapsto> JNum 41]]
        (last (writes (effect2 example_config (run example_config [Mount, AuthStateChanged]) init_world)))
        (the_path example_config) = Some [''count'' \<mapsto> JNum 42]"
proof -
  have h1: "isAuthReady (run example_config [Mount, AuthStateChanged])"
    by code_simp
  have h2: "analyticsDocPath example_config (run example_config [Mount, AuthStateChanged])
              = Some (the_path example_config)"
    by code_simp
  have a: "apply_write Map.empty
        (last (writes (effect2 example_config (run example_config [Mount, AuthStateChanged]) init_world)))
        (the_path example_config) = Some [''count'' \<mapsto> JNum 1]"
    by (rule C3_increment_write [OF h1 h2, of init_world JNull JNull Map.empty 0,
          THEN conjunct2, THEN conjunct2, THEN conjunct1, simplified])
  have b: "apply_write [the_path example_config \<mapsto> [''count'' \<mapsto> JNum 41]]
        (last (writes (effect2 example_config (run example_config [Mount, AuthStateChanged]) init_world)))
        (the_path example_config) = Some [''count'' \<mapsto> JNum 42]"
    by (rule C3_increment_write [OF h1 h2, of init_world JNull JNull
          "[the_path example_config \<mapsto> [''count'' \<mapsto> JNum 41]]" 0,
          THEN conjunct2, THEN conjunct2, THEN conjunct1, simplified])
  show ?thesis using h1 h2 a b by simp
qed

section \<open>The live mirror\<close>

text \<open>
  Claim C4, as amended. On a push the mirror becomes 0 when the document does not
  exist, and \<open>N\<close> when the document holds the integer \<open>count = N\<close> with \<open>N \<ge> 0\<close>. When
  the document exists, the mirror becomes 0 if the \<open>count\<close> field is absent or falsy
  (\<open>null\<close>, \<open>false\<close>, \<open>0\<close>, \<open>NaN\<close>, the empty string), and any other value of the field,
  a number or not, is mirrored unchanged. A push arrives only while the subscription
  stands.
\<close>

theorem C4_mirror_on_push:
  "viewCount (step cfg w (Snapshot s)) =
     (if snapshot_sub w = None then viewCount w
      else case s of
             None \<Rightarrow> JNum 0
           | Some d \<Rightarrow> (case d ''count'' of
                          None \<Rightarrow> JNum 0
                        | Some v \<Rightarrow> if truthy v then v else JNum 0))
   \<and> viewCount (snapshotCallback (Some (d'(''count'' \<mapsto> JNum (int n)))) w) = JNum (int n)"
  by (simp add: step_def snapshotCallback_def js_or_def field_def handle_def split: option.splits)

text \<open>
  The claim as worded fails for a malformed field that is truthy: a document whose
  \<open>count\<close> is the string \<^verbatim>\<open>"abc"\<close> leaves that string in the mirror, not 0.
\<close>

theorem C4_counterexample:
  "viewCount (run example_config
      [Mount, AuthStateChanged, Snapshot (Some [''count'' \<mapsto> JStr ''abc''])]) = JStr ''abc''
   \<and> JStr ''abc'' \<noteq> JNum 0"
  by code_simp

section \<open>Increment once per mount\<close>

text \<open>
  Claim C1, as amended. The increment write is issued at most once per mount of the
  component: over any sequence of events the number of writes never exceeds the number
  of mounts, and while the component is not torn down there is exactly one write once
  both gating conditions (readiness flag set, analytics path resolvable) hold, and none
  before. Nothing in the component remembers an earlier mount.
\<close>

theorem C1_one_write_per_mount:
  "length (writes (run cfg es)) \<le> count_list es Mount
   \<and> (Unmount \<notin> set es \<longrightarrow>
        writes (run cfg es) =
          (if isAuthReady (run cfg es) \<and> analyticsDocPath cfg (run cfg es) \<noteq> None
           then [increment_write cfg] else []))"
proof -
  have i: "inv cfg (run cfg es)" by (rule inv_run)
  have "length (writes (run cfg es)) \<le> count_list es Mount"
    using writes_mount_bound [of cfg es] by (simp split: if_splits)
  moreover have "Unmount \<notin> set es \<Longrightarrow> writes (run cfg es) =
          (if isAuthReady (run cfg es) \<and> analyticsDocPath cfg (run cfg es) \<noteq> None
           then [increment_write cfg] else [])"
    using inv_ready_mounted [OF i] by (auto simp add: writes_single_mount analyticsDocPath_db inv_db [OF i])
  ultimately show ?thesis by blast
qed

text \<open>
  The claim as worded fails when the component is torn down and initialised again in
  the same process: the second mount resets the state cells, the listener reports the
  auth state again, and the tracking effect issues a second write.
\<close>

theorem C1_counterexample:
  "writes (run example_config [Mount, AuthStateChanged, Unmount, Mount, AuthStateChanged])
     = [increment_write example_config, increment_write example_config]
   \<and> length (writes (run example_config [Mount, AuthStateChanged, Unmount, Mount, AuthStateChanged])) = 2"
  by code_simp

theorem C1_one_write_per_mount_witness:
  "Unmount \<notin> set [Mount, AuthStateChanged, SignInResolved ''u1'', AuthStateChanged]
   \<and> writes (run example_config [Mount, AuthStateChanged, SignInResolved ''u1'', AuthStateChanged])
       = [increment_write example_config]"
proof -
  have h: "Unmount \<notin> set [Mount, AuthStateChanged, SignInResolved ''u1'', AuthStateChanged]" by simp
  have r: "isAuthReady (run example_config [Mount, AuthStateChanged, SignInResolved ''u1'', AuthStateChanged])
      \<and> analyticsDocPath example_config (run example_config [Mount, AuthStateChanged, SignInResolved ''u1'', AuthStateChanged]) \<noteq> None"
    by code_simp
  show ?thesis
    using h r C1_one_write_per_mount [of example_config "[Mount, AuthStateChanged, SignInResolved ''u1'', AuthStateChanged]"]
    by simp
qed

section \<open>The store is only ever incremented\<close>

text \<open>
  Claim C9. Every write request the component issues, over any sequence of events, is
  the atomic increment by 1 of \<open>count\<close>: applied to a document holding the integer
  \<open>n\<close> it leaves \<open>n + 1\<close>, applied to an absent document it leaves 1. The subscription
  path issues no write: neither a pushed snapshot (in particular one of a document that
  does not exist) nor a subscription error changes the list of issued writes.
\<close>

theorem C9_only_increments:
  "(\<forall>r \<in> set (writes (run cfg es)).
       r = increment_write cfg
     \<and> stored_count (apply_write (s(the_path cfg \<mapsto> d(''count'' \<mapsto> JNum n))) r) (the_path cfg) = JNum (n + 1)
     \<and> stored_count (apply_write (s(the_path cfg := None)) r) (the_path cfg) = JNum 1)
   \<and> writes (run cfg (es @ [Snapshot snap])) = writes (run cfg es)
   \<and> writes (run cfg (es @ [SnapshotError])) = writes (run cfg es)"
proof -
  have a: "\<And>r. r \<in> set (writes (run cfg es)) \<Longrightarrow> r = increment_write cfg"
    using writes_all_increment [of cfg es] by auto
  have b: "stored_count (apply_write (s(the_path cfg \<mapsto> d(''count'' \<mapsto> JNum n))) (increment_write cfg)) (the_path cfg) = JNum (n + 1)"
    by (simp add: apply_increment_write stored_count_def field_def)
  have c: "stored_count (apply_write (s(the_path cfg := None)) (increment_write cfg)) (the_path cfg) = JNum 1"
    by (simp add: apply_increment_write stored_count_def field_def)
  have i: "inv cfg (run cfg es)" by (rule inv_run)
  have d: "writes (run cfg (es @ [Snapshot snap])) = writes (run cfg es)"
    using inv_ready_mounted [OF i]
    by (auto simp add: run_snoc step_writes [OF i] step_ready [OF i])
  have e: "writes (run cfg (es @ [SnapshotError])) = writes (run cfg es)"
    using inv_ready_mounted [OF i]
    by (auto simp add: run_snoc step_writes [OF i] step_ready [OF i])
  show ?thesis using a b c d e by auto
qed

theorem C9_only_increments_witness:
  "increment_write example_config \<in> set (writes (run example_config [Mount, AuthStateChanged]))
   \<and> stored_count (apply_write [the_path example_config \<mapsto> [''count'' \<mapsto> JNum 41]]
         (increment_write example_config)) (the_path example_config) = JNum 42
   \<and> writes (run example_config ([Mount, AuthStateChanged] @ [Snapshot None]))
       = writes (run example_config [Mount, AuthStateChanged])"
proof -
  have m: "increment_write example_config \<in> set (writes (run example_config [Mount, AuthStateChanged]))"
    by code_simp
  have "stored_count (apply_write (Map.empty(the_path example_config \<mapsto> Map.empty(''count'' \<mapsto> JNum 41)))
         (increment_write example_config)) (the_path example_config) = JNum (41 + 1)"
    using m C9_only_increments [of example_config "[Mount, AuthStateChanged]" Map.empty Map.empty 41 None]
    by blast
  moreover have "writes (run example_config ([Mount, AuthStateChanged] @ [Snapshot None]))
       = writes (run example_config [Mount, AuthStateChanged])"
    using C9_only_increments [of example_config "[Mount, AuthStateChanged]" Map.empty Map.empty 41 None]
    by blast
  ultimately show ?thesis using m by simp
qed

section \<open>Configuration without the access key\<close>

text \<open>
  Claim C5. When the store configuration lacks the access key, then over any sequence
  of events: mounting logs the configuration error; the readiness flag is true whenever
  the component is mounted; the mirror stays at its default 0; no write request is ever
  issued; and the subsystem stays disabled, with no store handle, no document path, no
  counter subscription, no auth listener and no sign-in attempt.
\<close>

theorem C5_missing_key:
  assumes "\<not> truthy (apiKey cfg)"
  shows "(Mount \<in> set es \<longrightarrow>
            ConsoleError ''Firebase configuration missing. Cannot initialize Firestore/Auth.''
              \<in> set (console (run cfg es)))
    \<and> isAuthReady (run cfg es) = mounted (run cfg es)
    \<and> viewCount (run cfg es) = JNum 0
    \<and> writes (run cfg es) = []
    \<and> db (run cfg es) = None \<and> analyticsDocPath cfg (run cfg es) = None
    \<and> snapshot_sub (run cfg es) = None
    \<and> \<not> auth_listener (run cfg es)
    \<and> signin (run cfg es) = NotStarted"
proof -
  have i: "inv cfg (run cfg es)" by (rule inv_run)
  have n: "nokey (run cfg es)" using assms by (rule nokey_run)
  have c: "Mount \<in> set es \<Longrightarrow> console (run cfg es) \<noteq> []"
    using assms by (rule nokey_console)
  have s: "set (console (run cfg es)) \<subseteq> {ConsoleError ''Firebase configuration missing. Cannot initialize Firestore/Auth.''}"
    using n by (simp add: nokey_def)
  have c': "Mount \<in> set es \<Longrightarrow> ConsoleError ''Firebase configuration missing. Cannot initialize Firestore/Auth.''
              \<in> set (console (run cfg es))"
  proof -
    assume "Mount \<in> set es"
    then have "console (run cfg es) \<noteq> []" by (rule c)
    then obtain x where "x \<in> set (console (run cfg es))" by (cases "console (run cfg es)") auto
    then show ?thesis using s by auto
  qed
  have h: "db (run cfg es) = None" "\<not> auth_listener (run cfg es)" "snapshot_sub (run cfg es) = None"
    "isAuthReady (run cfg es) = mounted (run cfg es)"
    using i assms by (cases "mounted (run cfg es)"; simp add: inv_def analyticsDocPath_db)+
  show ?thesis using n c' h by (simp add: nokey_def analyticsDocPath_db)
qed


theorem C5_missing_key_witness:
  "\<not> truthy (apiKey example_config_no_key)
   \<and> console (run example_config_no_key [Mount, AuthStateChanged, Snapshot None, SubmitLogin])
       = [ConsoleError ''Firebase configuration missing. Cannot initialize Firestore/Auth.'']
   \<and> isAuthReady (run example_config_no_key [Mount, AuthStateChanged, Snapshot None, SubmitLogin])
   \<and> viewCount (run example_config_no_key [Mount, AuthStateChanged, Snapshot None, SubmitLogin]) = JNum 0
   \<and> writes (run example_config_no_key [Mount, AuthStateChanged, Snapshot None, SubmitLogin]) = []"
proof -
  have h: "\<not> truthy (apiKey example_config_no_key)"
    by (simp add: example_config_no_key_def)
  have c: "console (run example_config_no_key [Mount, AuthStateChanged, Snapshot None, SubmitLogin])
       = [ConsoleError ''Firebase configuration missing. Cannot initialize Firestore/Auth.'']"
    by code_simp
  have m: "mounted (run example_config_no_key [Mount, AuthStateChanged, Snapshot None, SubmitLogin])"
    by code_simp
  show ?thesis
    using h c m C5_missing_key [OF h, of "[Mount, AuthStateChanged, Snapshot None, SubmitLogin]"]
    by simp
qed

text \<open>
  Claim C7, as amended. Whenever the readiness flag is true while the document path is
  null (there is no store handle), the tracking effect returns without doing anything:
  it issues no write and writes nothing to the console. No write has been issued before
  and none is issued in any continuation of the run. The state arises only from a
  configuration without key, and all the console ever holds in such a run is the
  configuration error written by the initialisation effect.
\<close>

theorem C7_silent_skip:
  assumes "isAuthReady (run cfg es)" and "analyticsDocPath cfg (run cfg es) = None"
  shows "effect2 cfg (run cfg es) (run cfg es) = run cfg es
    \<and> writes (run cfg es) = []
    \<and> writes (run cfg (es @ es')) = []
    \<and> ConsoleError ''Firebase configuration missing. Cannot initialize Firestore/Auth.''
         \<in> set (console (run cfg es))
    \<and> set (console (run cfg (es @ es')))
         \<subseteq> {ConsoleError ''Firebase configuration missing. Cannot initialize Firestore/Auth.''}"
proof -
  have i: "inv cfg (run cfg es)" by (rule inv_run)
  have m: "mounted (run cfg es)" using i assms(1) by (rule inv_ready_mounted)
  have k: "\<not> truthy (apiKey cfg)"
    using assms(2) m by (auto simp add: analyticsDocPath_db inv_db [OF i] split: if_splits)
  have n: "nokey (run cfg es)" using k by (rule nokey_run)
  have n': "nokey (run cfg (es @ es'))" using k by (rule nokey_run)
  from n m obtain x where "x \<in> set (console (run cfg es))"
    by (cases "console (run cfg es)") (auto simp add: nokey_def)
  then have c: "ConsoleError ''Firebase configuration missing. Cannot initialize Firestore/Auth.''
         \<in> set (console (run cfg es))"
    using n by (auto simp add: nokey_def)
  have e: "effect2 cfg (run cfg es) (run cfg es) = run cfg es"
    using assms(2) by (simp add: effect2_def)
  show ?thesis using c e n n' by (simp add: nokey_def)
qed

theorem C7_silent_skip_witness:
  "isAuthReady (run example_config_no_key [Mount])
   \<and> analyticsDocPath example_config_no_key (run example_config_no_key [Mount]) = None
   \<and> console (run example_config_no_key [Mount])
       = [ConsoleError ''Firebase configuration missing. Cannot initialize Firestore/Auth.'']
   \<and> writes (run example_config_no_key ([Mount] @ [AuthStateChanged, Unmount, Mount])) = []"
proof -
  have h1: "isAuthReady (run example_config_no_key [Mount])" by code_simp
  have h2: "analyticsDocPath example_config_no_key (run example_config_no_key [Mount]) = None"
    by code_simp
  have c: "console (run example_config_no_key [Mount])
       = [ConsoleError ''Firebase configuration missing. Cannot initialize Firestore/Auth.'']"
    by code_simp
  show ?thesis
    using h1 h2 c C7_silent_skip [OF h1 h2, of "[AuthStateChanged, Unmount, Mount]"]
    by simp
qed

text \<open>
  The claim as worded fails in that the skip is not logged: with the flag true and the
  path null the tracking effect leaves the console as it was, and the console after
  the mount is what the initialisation effect alone wrote.
\<close>

theorem C7_counterexample:
  "isAuthReady (run example_config_no_key [Mount])
   \<and> analyticsDocPath example_config_no_key (run example_config_no_key [Mount]) = None
   \<and> console (effect2 example_config_no_key (run example_config_no_key [Mount])
         (run example_config_no_key [Mount]))
       = console (run example_config_no_key [Mount])
   \<and> console (run example_config_no_key [Mount])
       = console (effect1 example_config_no_key (init_world\<lparr>mounted := True\<rparr>))"
  by code_simp

section \<open>The readiness flag\<close>

text \<open>
  Claim C2, as amended. While the component stays mounted the readiness flag never
  returns to false once it is true, so it turns true at most once per mount. It is set
  by the callback of the auth-state listener (on its first report and on every later
  one) and, when the configuration lacks the access key, at mount; a true flag always
  stems from one of these. The flag is not tied to the sign-in attempt: the listener's
  first report can arrive while the sign-in is still pending.
\<close>

theorem C2_readiness:
  "(isAuthReady (run cfg es) \<and> Unmount \<notin> set es' \<longrightarrow> isAuthReady (run cfg (es @ es')))
   \<and> (auth_listener (run cfg es) \<longrightarrow> isAuthReady (run cfg (es @ [AuthStateChanged])))
   \<and> (mounted (run cfg es) \<and> \<not> truthy (apiKey cfg) \<longrightarrow> isAuthReady (run cfg es))
   \<and> (isAuthReady (run cfg es) \<longrightarrow>
         \<not> truthy (apiKey cfg) \<or> AuthStateChanged \<in> set es \<or> (\<exists>u. SignInResolved u \<in> set es))"
proof -
  have i: "inv cfg (run cfg es)" by (rule inv_run)
  have b: "auth_listener (run cfg es) \<Longrightarrow> isAuthReady (run cfg (es @ [AuthStateChanged]))"
    using inv_listener_mounted [OF i] by (simp add: run_snoc step_ready [OF i])
  have c: "mounted (run cfg es) \<and> \<not> truthy (apiKey cfg) \<Longrightarrow> isAuthReady (run cfg es)"
    using i by (simp add: inv_def)
  show ?thesis using ready_stays [of cfg es es'] ready_origin [of cfg es] b c by blast
qed

text \<open>
  The claim as worded fails: after mounting and the listener's first report the flag
  is true while the anonymous sign-in has not settled; and without the access key the
  flag is true although no sign-in was ever started.
\<close>

theorem C2_counterexample:
  "isAuthReady (run example_config [Mount, AuthStateChanged])
   \<and> signin (run example_config [Mount, AuthStateChanged]) = Pending Anonymous
   \<and> isAuthReady (run example_config_no_key [Mount])
   \<and> signin (run example_config_no_key [Mount]) = NotStarted"
  by code_simp

theorem C2_readiness_witness:
  "isAuthReady (run example_config [Mount, AuthStateChanged])
   \<and> Unmount \<notin> set [SignInRejected, ClickEditorLogin]
   \<and> isAuthReady (run example_config ([Mount, AuthStateChanged] @ [SignInRejected, ClickEditorLogin]))
   \<and> auth_listener (run example_config [Mount])
   \<and> isAuthReady (run example_config ([Mount] @ [AuthStateChanged]))"
proof -
  have h1: "isAuthReady (run example_config [Mount, AuthStateChanged])" by code_simp
  have h2: "Unmount \<notin> set [SignInRejected, ClickEditorLogin]" by simp
  have h3: "auth_listener (run example_config [Mount])" by code_simp
  have a: "isAuthReady (run example_config ([Mount, AuthStateChanged] @ [SignInRejected, ClickEditorLogin]))"
    using h1 h2 C2_readiness [of example_config "[Mount, AuthStateChanged]" "[SignInRejected, ClickEditorLogin]"]
    by blast
  have b: "isAuthReady (run example_config ([Mount] @ [AuthStateChanged]))"
    using h3 C2_readiness [of example_config "[Mount]" "[]"] by blast
  show ?thesis using h1 h2 h3 a b by blast
qed








section \<open>Login, logout and the counter\<close>

text \<open>
  Claim C8. Submitting the login form and clicking sign-out leave the counter
  subsystem (store handle, readiness flag, mirror, issued writes, subscription) as it
  was, in every reachable world. The login handler touches neither the session identity
  nor the identity provider: it succeeds, closing the form, exactly when the entered
  email and password equal the two hardcoded literals. Sign-out can only clear the
  session identity.
\<close>

theorem C8_login_logout_frame:
  "counter_state (run cfg (es @ [SubmitLogin])) = counter_state (run cfg es)
   \<and> userId (run cfg (es @ [SubmitLogin])) = userId (run cfg es)
   \<and> provider_user (run cfg (es @ [SubmitLogin])) = provider_user (run cfg es)
   \<and> signin (run cfg (es @ [SubmitLogin])) = signin (run cfg es)
   \<and> counter_state (run cfg (es @ [ClickSignOut ok])) = counter_state (run cfg es)
   \<and> (userId (run cfg (es @ [ClickSignOut ok])) = None
        \<or> userId (run cfg (es @ [ClickSignOut ok])) = userId (run cfg es))
   \<and> counter_state (handleLogin w) = counter_state w
   \<and> userId (handleLogin w) = userId w
   \<and> (\<not> isLoggingIn w \<and> auth w \<noteq> None \<and> showLogin w \<longrightarrow>
         (\<not> showLogin (handleLogin w)) =
           (loginEmail w = ''editor@thecurrent.edu'' \<and> loginPassword w = ''password123''))"
proof -
  have i: "inv cfg (run cfg es)" by (rule inv_run)
  have a: "counter_state (run cfg (es @ [SubmitLogin])) = counter_state (run cfg es)"
    by (simp add: run_snoc step_frame_login_signout [OF i])
  have b: "userId (run cfg (es @ [SubmitLogin])) = userId (run cfg es)"
    "provider_user (run cfg (es @ [SubmitLogin])) = provider_user (run cfg es)"
    "signin (run cfg (es @ [SubmitLogin])) = signin (run cfg es)"
    by (simp_all add: run_snoc step_def handle_def handleLogin_frame)
  have c: "counter_state (run cfg (es @ [ClickSignOut ok])) = counter_state (run cfg es)"
    by (simp add: run_snoc step_frame_login_signout [OF i])
  have d: "userId (run cfg (es @ [ClickSignOut ok])) = None
        \<or> userId (run cfg (es @ [ClickSignOut ok])) = userId (run cfg es)"
    using handleSignOut_frame(8) [of ok "run cfg es"] by (auto simp add: run_snoc step_def handle_def)
  have e: "counter_state (handleLogin w) = counter_state w" "userId (handleLogin w) = userId w"
    by (simp_all add: counter_state_def handleLogin_frame)
  have f: "\<not> isLoggingIn w \<and> auth w \<noteq> None \<and> showLogin w \<longrightarrow>
         (\<not> showLogin (handleLogin w)) =
           (loginEmail w = ''editor@thecurrent.edu'' \<and> loginPassword w = ''password123'')"
    by (auto simp add: handleLogin_def showToast_def MOCK_ADMIN_EMAIL_def MOCK_ADMIN_PASSWORD_def)
  show ?thesis using a b c d e f by blast
qed


theorem C8_login_logout_frame_witness:
  "\<not> isLoggingIn (run example_config [Mount, AuthStateChanged, ClickEditorLogin,
        ChangeEmail ''editor@thecurrent.edu'', ChangePassword ''password123''])
   \<and> auth (run example_config [Mount, AuthStateChanged, ClickEditorLogin,
        ChangeEmail ''editor@thecurrent.edu'', ChangePassword ''password123'']) \<noteq> None
   \<and> showLogin (run example_config [Mount, AuthStateChanged, ClickEditorLogin,
        ChangeEmail ''editor@thecurrent.edu'', ChangePassword ''password123''])
   \<and> \<not> showLogin (handleLogin (run example_config [Mount, AuthStateChanged, ClickEditorLogin,
        ChangeEmail ''editor@thecurrent.edu'', ChangePassword ''password123'']))
   \<and> userId (handleLogin (run example_config [Mount, AuthStateChanged, ClickEditorLogin,
        ChangeEmail ''editor@thecurrent.edu'', ChangePassword ''password123''])) = None"
proof -
  let ?w = "run example_config [Mount, AuthStateChanged, ClickEditorLogin,
        ChangeEmail ''editor@thecurrent.edu'', ChangePassword ''password123'']"
  have h: "\<not> isLoggingIn ?w \<and> auth ?w \<noteq> None \<and> showLogin ?w" by code_simp
  have c: "loginEmail ?w = ''editor@thecurrent.edu'' \<and> loginPassword ?w = ''password123''"
    by code_simp
  have u: "userId ?w = None" by code_simp
  show ?thesis
    using h c u C8_login_logout_frame [of example_config "[]" True ?w] by simp
qed

text \<open>
  Claim C10. In every reachable world in which the counter subscription stands, the
  sign-out handler (whether \<^verbatim>\<open>signOut\<close> resolves or rejects) changes neither the
  mirrored count nor the subscription, and a snapshot pushed after the sign-out updates
  the mirror exactly as it would have before.
\<close>

theorem C10_signout_keeps_mirror:
  assumes "snapshot_sub (run cfg es) \<noteq> None"
  shows "viewCount (commit cfg (handleSignOut ok (run cfg es))) = viewCount (run cfg es)
    \<and> snapshot_sub (commit cfg (handleSignOut ok (run cfg es))) = snapshot_sub (run cfg es)
    \<and> viewCount (run cfg (es @ [ClickSignOut ok])) = viewCount (run cfg es)
    \<and> snapshot_sub (run cfg (es @ [ClickSignOut ok])) = snapshot_sub (run cfg es)
    \<and> viewCount (run cfg (es @ [ClickSignOut ok, Snapshot d]))
        = viewCount (snapshotCallback d (run cfg es))"
proof -
  let ?w = "run cfg es"
  have i: "inv cfg ?w" by (rule inv_run)
  have r: "isAuthReady ?w" using assms by (simp add: inv_sub [OF i] split: if_splits)
  have m: "mounted ?w" using i r by (rule inv_ready_mounted)
  have d3: "deps3 ?w = Some (deps_of cfg ?w)" using i m by (simp add: inv_def)
  have r': "isAuthReady (handleSignOut ok ?w)" using r by (rule handleSignOut_frame(9))
  have dp: "deps_of cfg (handleSignOut ok ?w) = deps_of cfg ?w"
    using r r' by (simp add: deps_of_db handleSignOut_frame)
  have a: "viewCount (commit cfg (handleSignOut ok ?w)) = viewCount ?w"
    by (simp add: handleSignOut_frame)
  have b: "snapshot_sub (commit cfg (handleSignOut ok ?w)) = snapshot_sub ?w"
    using m d3 dp by (simp add: commit_sub handleSignOut_frame)
  have c: "counter_state (step cfg ?w (ClickSignOut ok)) = counter_state ?w"
    by (simp add: step_frame_login_signout [OF i])
  have c1: "viewCount (step cfg ?w (ClickSignOut ok)) = viewCount ?w"
    and c2: "snapshot_sub (step cfg ?w (ClickSignOut ok)) = snapshot_sub ?w"
    using c by (simp_all add: counter_state_def)
  have "run cfg (es @ [ClickSignOut ok, Snapshot d])
      = step cfg (step cfg ?w (ClickSignOut ok)) (Snapshot d)"
    by (simp add: run_def)
  then have e: "viewCount (run cfg (es @ [ClickSignOut ok, Snapshot d]))
        = viewCount (snapshotCallback d ?w)"
    using assms c2 by (auto simp add: step_snapshot_viewCount [where w' = ?w])
  show ?thesis using a b c1 c2 e by (simp add: run_snoc)
qed

theorem C10_signout_keeps_mirror_witness:
  "snapshot_sub (run example_config
      [Mount, AuthStateChanged, SignInResolved ''u1'', Snapshot (Some [''count'' \<mapsto> JNum 5])]) \<noteq> None
   \<and> viewCount (run example_config
      ([Mount, AuthStateChanged, SignInResolved ''u1'', Snapshot (Some [''count'' \<mapsto> JNum 5])]
        @ [ClickSignOut True])) = JNum 5
   \<and> viewCount (run example_config
      ([Mount, AuthStateChanged, SignInResolved ''u1'', Snapshot (Some [''count'' \<mapsto> JNum 5])]
        @ [ClickSignOut True, Snapshot (Some [''count'' \<mapsto> JNum 6])])) = JNum 6
   \<and> userId (run example_config
      ([Mount, AuthStateChanged, SignInResolved ''u1'', Snapshot (Some [''count'' \<mapsto> JNum 5])]
        @ [ClickSignOut True])) = None"
proof -
  let ?es = "[Mount, AuthStateChanged, SignInResolved ''u1'', Snapshot (Some [''count'' \<mapsto> JNum 5])]"
  have h: "snapshot_sub (run example_config ?es) \<noteq> None" by code_simp
  have v: "viewCount (run example_config ?es) = JNum 5" by code_simp
  have u: "userId (run example_config (?es @ [ClickSignOut True])) = None" by code_simp
  have s: "viewCount (snapshotCallback (Some [''count'' \<mapsto> JNum 6]) (run example_config ?es)) = JNum 6"
    by (simp add: snapshotCallback_def js_or_def field_def)
  show ?thesis
    using h v u s
      C10_signout_keeps_mirror [OF h, of True "Some [''count'' \<mapsto> JNum 6]"]
    by simp
qed

end
